theory Spec2Isabelle
  imports
    Complex_Main
    "HOL-Library.Char_ord"
    "HOL-Library.List_Lexorder"
    "HOL-Library.Multiset"
begin

section \<open>The todos table (src/db/schema.ts)\<close>

text \<open>
  A row of the table. The two date columns are \<open>text\<close> columns holding what
  \<open>new Date().toISOString()\<close> returned; SQLite compares them as text, which is the
  lexicographic order on strings used here. The id is the INTEGER PRIMARY KEY
  AUTOINCREMENT column. A title is a JavaScript string; \<open>length\<close> counts its code units.
\<close>

type_synonym timestamp = string

record todo =
  todo_id :: int
  title :: string
  completed :: bool
  createdAt :: timestamp
  updatedAt :: timestamp

text \<open>
  The database behind the process-wide handle \<open>db\<close> of src/db/index.ts: the rows of
  \<open>todos\<close> in rowid order, and the counter SQLite keeps for an AUTOINCREMENT key (the
  largest rowid the table has ever held).
\<close>

record database =
  todos :: "todo list"
  sqlite_sequence :: int

definition empty_db :: database where
  "empty_db = \<lparr>todos = [], sqlite_sequence = 0\<rparr>"

text \<open>
  What a handler can throw: the error of a zod \<open>parse\<close> that rejects its input, and the
  error of the query builder's \<open>set\<close>, which refuses an update that sets no column
  ("No values to set").
\<close>

datatype error = ZodError | NoValuesToSet

section \<open>The queries the handlers issue\<close>

text \<open>\<open>const [x] = rows\<close>: the first element, \<open>undefined\<close> when there is none.\<close>

fun first :: "'a list \<Rightarrow> 'a option" where
  "first [] = None"
| "first (x # xs) = Some x"

text \<open>\<open>db.select().from(todos).orderBy(desc(todos.createdAt))\<close>. Rows with the same
  createdAt come in rowid order.\<close>

definition select_orderBy_desc_createdAt :: "database \<Rightarrow> todo list" where
  "select_orderBy_desc_createdAt db = rev (sort_key createdAt (rev (todos db)))"

text \<open>\<open>db.select().from(todos).where(eq(todos.id, i))\<close>\<close>

definition select_where_id :: "int \<Rightarrow> database \<Rightarrow> todo list" where
  "select_where_id i db = filter (\<lambda>r. todo_id r = i) (todos db)"

text \<open>
  The rowid an AUTOINCREMENT insert assigns: one more than the largest rowid the table has
  ever held.
\<close>

definition next_rowid :: "database \<Rightarrow> int" where
  "next_rowid db = 1 + fold max (map todo_id (todos db)) (sqlite_sequence db)"

text \<open>
  \<open>db.insert(todos).values({ title }).returning()\<close>. The columns left out take their
  defaults: \<open>completed\<close> is false, and \<open>createdAt\<close> and \<open>updatedAt\<close> each call
  their own \<open>$defaultFn\<close>, so each reads the clock once: \<open>tc\<close> is what the clock gave
  for createdAt, \<open>tu\<close> what it gave next for updatedAt.
\<close>

definition insert_returning ::
  "timestamp \<Rightarrow> timestamp \<Rightarrow> string \<Rightarrow> database \<Rightarrow> todo list \<times> database" where
  "insert_returning tc tu ttl db =
     (let row = \<lparr>todo_id = next_rowid db, title = ttl, completed = False,
                 createdAt = tc, updatedAt = tu\<rparr>
      in ([row], \<lparr>todos = todos db @ [row], sqlite_sequence = next_rowid db\<rparr>))"

text \<open>
  The object given to \<open>set\<close>: a \<open>Partial<NewTodo>\<close> in which the handlers fill in at
  most \<open>title\<close> and \<open>completed\<close>.
\<close>

record update_set =
  set_title :: "string option"
  set_completed :: "bool option"

text \<open>
  One row under \<open>UPDATE todos SET ...\<close>: the columns of the set, and \<open>updatedAt\<close>,
  which is not in the set and so takes what its \<open>$onUpdate\<close> function returns (the clock
  reading \<open>now\<close>).
\<close>

definition apply_set :: "timestamp \<Rightarrow> update_set \<Rightarrow> todo \<Rightarrow> todo" where
  "apply_set now s r =
     r\<lparr>title := (case set_title s of None \<Rightarrow> title r | Some t \<Rightarrow> t),
       completed := (case set_completed s of None \<Rightarrow> completed r | Some c \<Rightarrow> c),
       updatedAt := now\<rparr>"

text \<open>
  \<open>db.update(todos).set(s).where(eq(todos.id, i)).returning()\<close>. \<open>set\<close> throws when
  the object has no defined value; otherwise every row with that id is rewritten and the
  rewritten rows are returned.
\<close>

definition update_where_id_returning ::
  "timestamp \<Rightarrow> update_set \<Rightarrow> int \<Rightarrow> database \<Rightarrow> error + todo list \<times> database" where
  "update_where_id_returning now s i db =
     (if set_title s = None \<and> set_completed s = None then Inl NoValuesToSet
      else Inr (map (apply_set now s) (filter (\<lambda>r. todo_id r = i) (todos db)),
                db\<lparr>todos := map (\<lambda>r. if todo_id r = i then apply_set now s r else r)
                                 (todos db)\<rparr>))"

text \<open>\<open>db.delete(todos).where(eq(todos.id, i))\<close>\<close>

definition delete_where_id :: "int \<Rightarrow> database \<Rightarrow> database" where
  "delete_where_id i db = db\<lparr>todos := filter (\<lambda>r. todo_id r \<noteq> i) (todos db)\<rparr>"

text \<open>\<open>db.delete(todos).where(eq(todos.completed, true)).returning()\<close>\<close>

definition delete_where_completed_returning :: "database \<Rightarrow> todo list \<times> database" where
  "delete_where_completed_returning db =
     (filter completed (todos db),
      db\<lparr>todos := filter (\<lambda>r. \<not> completed r) (todos db)\<rparr>)"

section \<open>Input validation (src/server/todo.ts, the zod schemas)\<close>

text \<open>
  The handlers of update, toggle and delete take an input of type \<open>unknown\<close>: any
  JavaScript value that the transport can carry. \<open>JNumber\<close> is a finite number,
  \<open>JNonFinite\<close> stands for NaN and the infinities.
\<close>

datatype jsvalue =
    JUndefined
  | JNull
  | JBoolean bool
  | JNumber rat
  | JNonFinite
  | JString string
  | JArray "jsvalue list"
  | JObject "(string \<times> jsvalue) list"

text \<open>Reading a property of an object: \<open>undefined\<close> when the key is missing.\<close>

definition property :: "(string \<times> jsvalue) list \<Rightarrow> string \<Rightarrow> jsvalue" where
  "property kvs k = (case map_of kvs k of None \<Rightarrow> JUndefined | Some v \<Rightarrow> v)"

text \<open>
  \<open>z.number().int().positive()\<close>: a number, with no fractional part, greater than
  zero. (A version of zod whose \<open>int\<close> also bounds the magnitude accepts fewer numbers;
  every theorem below that assumes an accepted input then covers all it accepts.)
\<close>

definition z_number_int_positive :: "jsvalue \<Rightarrow> error + int" where
  "z_number_int_positive v =
     (case v of
        JNumber q \<Rightarrow> if of_int \<lfloor>q\<rfloor> = q \<and> 0 < q then Inr \<lfloor>q\<rfloor> else Inl ZodError
      | _ \<Rightarrow> Inl ZodError)"

text \<open>\<open>z.string().min(1).max(200).optional()\<close>\<close>

definition z_string_min1_max200_optional :: "jsvalue \<Rightarrow> error + string option" where
  "z_string_min1_max200_optional v =
     (case v of
        JUndefined \<Rightarrow> Inr None
      | JString s \<Rightarrow> if 1 \<le> length s \<and> length s \<le> 200 then Inr (Some s) else Inl ZodError
      | _ \<Rightarrow> Inl ZodError)"

text \<open>\<open>z.boolean().optional()\<close>\<close>

definition z_boolean_optional :: "jsvalue \<Rightarrow> error + bool option" where
  "z_boolean_optional v =
     (case v of
        JUndefined \<Rightarrow> Inr None
      | JBoolean b \<Rightarrow> Inr (Some b)
      | _ \<Rightarrow> Inl ZodError)"

text \<open>\<open>idSchema.parse(input)\<close>\<close>

definition idSchema_parse :: "jsvalue \<Rightarrow> error + int" where
  "idSchema_parse input =
     (case input of
        JObject kvs \<Rightarrow> z_number_int_positive (property kvs ''id'')
      | _ \<Rightarrow> Inl ZodError)"

text \<open>What \<open>updateTodoSchema.parse(input)\<close> returns.\<close>

record update_data =
  data_id :: int
  data_title :: "string option"
  data_completed :: "bool option"

definition updateTodoSchema_parse :: "jsvalue \<Rightarrow> error + update_data" where
  "updateTodoSchema_parse input =
     (case input of
        JObject kvs \<Rightarrow>
          (case z_number_int_positive (property kvs ''id'') of
             Inl e \<Rightarrow> Inl e
           | Inr i \<Rightarrow>
               (case z_string_min1_max200_optional (property kvs ''title'') of
                  Inl e \<Rightarrow> Inl e
                | Inr t \<Rightarrow>
                    (case z_boolean_optional (property kvs ''completed'') of
                       Inl e \<Rightarrow> Inl e
                     | Inr c \<Rightarrow> Inr \<lparr>data_id = i, data_title = t, data_completed = c\<rparr>)))
      | _ \<Rightarrow> Inl ZodError)"

text \<open>
  The input of \<open>createTodo\<close> is typed \<open>{ title: string }\<close>, and its validator is the
  identity function \<open>(input) => input\<close>.
\<close>

record create_input =
  input_title :: string

definition createTodo_inputValidator :: "create_input \<Rightarrow> error + create_input" where
  "createTodo_inputValidator input = Inr input"

section \<open>The server functions (src/server/todo.ts)\<close>

text \<open>
  Each handler takes the database and returns what it resolves to (\<open>Inr\<close>) or what it
  throws (\<open>Inl\<close>), with the database it leaves. \<open>None\<close> is JavaScript's \<open>null\<close>
  or \<open>undefined\<close>. The clock readings a handler may take are parameters.
\<close>

definition getTodos :: "database \<Rightarrow> (error + todo list) \<times> database" where
  "getTodos db = (Inr (select_orderBy_desc_createdAt db), db)"

definition createTodo ::
  "timestamp \<Rightarrow> timestamp \<Rightarrow> create_input \<Rightarrow> database \<Rightarrow> (error + todo option) \<times> database" where
  "createTodo tc tu input db =
     (case createTodo_inputValidator input of
        Inl e \<Rightarrow> (Inl e, db)
      | Inr data \<Rightarrow>
          (case insert_returning tc tu (input_title data) db of
             (returned, db') \<Rightarrow> (Inr (first returned), db')))"

definition updateTodo ::
  "timestamp \<Rightarrow> jsvalue \<Rightarrow> database \<Rightarrow> (error + todo option) \<times> database" where
  "updateTodo now input db =
     (case updateTodoSchema_parse input of
        Inl e \<Rightarrow> (Inl e, db)
      | Inr data \<Rightarrow>
          (let updateData = \<lparr>set_title = data_title data, set_completed = data_completed data\<rparr>
           in case update_where_id_returning now updateData (data_id data) db of
                Inl e \<Rightarrow> (Inl e, db)
              | Inr (returned, db') \<Rightarrow> (Inr (first returned), db')))"

definition toggleTodo ::
  "timestamp \<Rightarrow> jsvalue \<Rightarrow> database \<Rightarrow> (error + todo option) \<times> database" where
  "toggleTodo now input db =
     (case idSchema_parse input of
        Inl e \<Rightarrow> (Inl e, db)
      | Inr i \<Rightarrow>
          (case first (select_where_id i db) of
             None \<Rightarrow> (Inr None, db)
           | Some current \<Rightarrow>
               (case update_where_id_returning now
                       \<lparr>set_title = None, set_completed = Some (\<not> completed current)\<rparr> i db of
                  Inl e \<Rightarrow> (Inl e, db)
                | Inr (returned, db') \<Rightarrow> (Inr (first returned), db'))))"

record delete_result =
  success :: bool

definition deleteTodo :: "jsvalue \<Rightarrow> database \<Rightarrow> (error + delete_result) \<times> database" where
  "deleteTodo input db =
     (case idSchema_parse input of
        Inl e \<Rightarrow> (Inl e, db)
      | Inr i \<Rightarrow> (Inr \<lparr>success = True\<rparr>, delete_where_id i db))"

record delete_completed_result =
  deletedCount :: nat

definition deleteCompletedTodos ::
  "database \<Rightarrow> (error + delete_completed_result) \<times> database" where
  "deleteCompletedTodos db =
     (case delete_where_completed_returning db of
        (result, db') \<Rightarrow> (Inr \<lparr>deletedCount = length result\<rparr>, db'))"

section \<open>Sequences of calls\<close>

text \<open>
  A call of a server function with its input and the clock readings available to it. A
  run executes calls one after the other, each to completion, on the database the one
  before left.
\<close>

datatype call =
    GetTodos
  | CreateTodo timestamp timestamp create_input
  | UpdateTodo timestamp jsvalue
  | ToggleTodo timestamp jsvalue
  | DeleteTodo jsvalue
  | DeleteCompletedTodos

fun exec :: "call \<Rightarrow> database \<Rightarrow> database" where
  "exec GetTodos db = snd (getTodos db)"
| "exec (CreateTodo tc tu input) db = snd (createTodo tc tu input db)"
| "exec (UpdateTodo now input) db = snd (updateTodo now input db)"
| "exec (ToggleTodo now input) db = snd (toggleTodo now input db)"
| "exec (DeleteTodo input) db = snd (deleteTodo input db)"
| "exec DeleteCompletedTodos db = snd (deleteCompletedTodos db)"

fun run :: "call list \<Rightarrow> database \<Rightarrow> database" where
  "run [] db = db"
| "run (c # cs) db = run cs (exec c db)"

text \<open>The ids of the todos that the \<open>createTodo\<close> calls of a run returned, in order.\<close>

fun created_id :: "call \<Rightarrow> database \<Rightarrow> int list" where
  "created_id (CreateTodo tc tu input) db =
     (case fst (createTodo tc tu input db) of Inr (Some t) \<Rightarrow> [todo_id t] | _ \<Rightarrow> [])"
| "created_id c db = []"

fun created_ids :: "call list \<Rightarrow> database \<Rightarrow> int list" where
  "created_ids [] db = []"
| "created_ids (c # cs) db = created_id c db @ created_ids cs (exec c db)"

text \<open>The clock readings of a run, in the order in which they are taken.\<close>

fun readings :: "call \<Rightarrow> timestamp list" where
  "readings (CreateTodo tc tu input) = [tc, tu]"
| "readings (UpdateTodo now input) = [now]"
| "readings (ToggleTodo now input) = [now]"
| "readings c = []"

definition clock :: "call list \<Rightarrow> timestamp list" where
  "clock cs = concat (map readings cs)"

section \<open>Facts about lists and rowids\<close>

lemma first_filter_None: "first (filter P xs) = None \<longleftrightarrow> (\<forall>x\<in>set xs. \<not> P x)"
  by (induction xs) auto

lemma first_filter_Some: "first (filter P xs) = Some c \<Longrightarrow> c \<in> set xs \<and> P c"
  by (induction xs) (auto split: if_splits)

lemma first_map: "first (map f xs) = map_option f (first xs)"
  by (cases xs) simp_all

lemma first_filter_unique:
  assumes "distinct (map f xs)" "first (filter (\<lambda>r. f r = i) xs) = Some c"
    "r \<in> set xs" "f r = i"
  shows "r = c"
proof -
  from assms(2) have "c \<in> set xs" "f c = i"
    using first_filter_Some [of "\<lambda>r. f r = i" xs c] by auto
  moreover from assms(1) have "inj_on f (set xs)" by (simp add: distinct_map)
  ultimately show ?thesis using assms(3,4) by (auto dest: inj_onD)
qed

lemma first_filter_present:
  "i \<in> f ` set xs \<Longrightarrow> \<exists>c. first (filter (\<lambda>r. f r = i) xs) = Some c"
  by (induction xs) auto

lemma first_filter_map_keep:
  assumes "\<And>r. f (g r) = f r"
  shows "first (filter (\<lambda>r. f r = i) (map g xs)) = map_option g (first (filter (\<lambda>r. f r = i) xs))"
  by (induction xs) (simp_all add: assms)

lemma map_unchanged: "i \<notin> f ` set xs \<Longrightarrow> map (\<lambda>r. if f r = i then g r else r) xs = xs"
  by (induction xs) auto

lemma fold_max_ge_init: "(a::int) \<le> fold max xs a"
proof (induction xs arbitrary: a)
  case Nil
  show ?case by simp
next
  case (Cons x xs)
  have "a \<le> max x a" by simp
  also have "\<dots> \<le> fold max xs (max x a)" by (rule Cons.IH)
  finally show ?case by simp
qed

lemma fold_max_ge_elem: "x \<in> set xs \<Longrightarrow> (x::int) \<le> fold max xs a"
proof (induction xs arbitrary: a)
  case Nil
  then show ?case by simp
next
  case (Cons y ys)
  show ?case
  proof (cases "x = y")
    case True
    have "x \<le> max y a" using True by simp
    also have "\<dots> \<le> fold max ys (max y a)" by (rule fold_max_ge_init)
    finally show ?thesis by simp
  next
    case False
    with Cons.prems have "x \<in> set ys" by simp
    then show ?thesis using Cons.IH by simp
  qed
qed

lemma next_rowid_gt_sequence: "sqlite_sequence db < next_rowid db"
  using fold_max_ge_init [of "sqlite_sequence db" "map todo_id (todos db)"]
  by (simp add: next_rowid_def)

lemma next_rowid_gt_row: "r \<in> set (todos db) \<Longrightarrow> todo_id r < next_rowid db"
  using fold_max_ge_elem [of "todo_id r" "map todo_id (todos db)" "sqlite_sequence db"]
  by (simp add: next_rowid_def)

section \<open>Facts about the handlers\<close>

text \<open>The definitions that evaluating a handler on concrete data unfolds.\<close>

lemmas eval_defs =
  createTodo_def createTodo_inputValidator_def insert_returning_def next_rowid_def empty_db_def
  idSchema_parse_def updateTodoSchema_parse_def property_def z_number_int_positive_def
  z_string_min1_max200_optional_def z_boolean_optional_def
  toggleTodo_def updateTodo_def update_where_id_returning_def apply_set_def select_where_id_def
  deleteTodo_def delete_where_id_def deleteCompletedTodos_def delete_where_completed_returning_def
  getTodos_def select_orderBy_desc_createdAt_def clock_def Let_def

text \<open>Every positive integer is an id that \<open>idSchema\<close> accepts, and it accepts no other.\<close>

lemma idSchema_parse_positive:
  "0 < i \<Longrightarrow> idSchema_parse (JObject [(''id'', JNumber (of_int i))]) = Inr i"
  by (simp add: idSchema_parse_def property_def z_number_int_positive_def)

lemma idSchema_parse_Inr: "idSchema_parse input = Inr i \<Longrightarrow> 0 < i"
  by (auto simp: idSchema_parse_def z_number_int_positive_def split: jsvalue.splits if_splits)

text \<open>\<open>createTodo\<close> has one outcome, whatever the title.\<close>

lemma createTodo_eq:
  "createTodo tc tu input db =
     (Inr (Some \<lparr>todo_id = next_rowid db, title = input_title input, completed = False,
                 createdAt = tc, updatedAt = tu\<rparr>),
      \<lparr>todos = todos db @ [\<lparr>todo_id = next_rowid db, title = input_title input,
                             completed = False, createdAt = tc, updatedAt = tu\<rparr>],
       sqlite_sequence = next_rowid db\<rparr>)"
  by (simp add: createTodo_def createTodo_inputValidator_def insert_returning_def Let_def)

text \<open>\<open>toggleTodo\<close> on a table whose ids are distinct, for an id that has a row.\<close>

lemma toggleTodo_present:
  assumes parse: "idSchema_parse input = Inr i"
    and key: "distinct (map todo_id (todos db))"
    and cur: "first (select_where_id i db) = Some c"
  shows "toggleTodo now input db =
           (Inr (Some (c\<lparr>completed := \<not> completed c, updatedAt := now\<rparr>)),
            db\<lparr>todos := map (\<lambda>r. if todo_id r = i
                                   then r\<lparr>completed := \<not> completed r, updatedAt := now\<rparr>
                                   else r) (todos db)\<rparr>)"
proof -
  let ?s = "\<lparr>set_title = None, set_completed = Some (\<not> completed c)\<rparr>"
  have same: "r = c" if "r \<in> set (todos db)" "todo_id r = i" for r
    using first_filter_unique [of todo_id "todos db" i c r] key cur that
    by (simp add: select_where_id_def)
  have rows: "map (\<lambda>r. if todo_id r = i then apply_set now ?s r else r) (todos db) =
              map (\<lambda>r. if todo_id r = i then r\<lparr>completed := \<not> completed r, updatedAt := now\<rparr>
                        else r) (todos db)"
    using same by (auto simp: apply_set_def)
  have ret: "first (map (apply_set now ?s) (filter (\<lambda>r. todo_id r = i) (todos db))) =
             Some (c\<lparr>completed := \<not> completed c, updatedAt := now\<rparr>)"
    using cur by (simp add: first_map select_where_id_def apply_set_def)
  show ?thesis
    using parse cur ret rows
    by (simp add: toggleTodo_def update_where_id_returning_def)
qed

text \<open>\<open>updateTodo\<close> when the input sets at least one column.\<close>

lemma updateTodo_eq:
  assumes parse: "updateTodoSchema_parse input = Inr d"
    and some: "data_title d \<noteq> None \<or> data_completed d \<noteq> None"
  shows "updateTodo now input db =
           (Inr (map_option
                   (apply_set now \<lparr>set_title = data_title d, set_completed = data_completed d\<rparr>)
                   (first (select_where_id (data_id d) db))),
            db\<lparr>todos := map (\<lambda>r. if todo_id r = data_id d
                                   then apply_set now
                                          \<lparr>set_title = data_title d, set_completed = data_completed d\<rparr> r
                                   else r) (todos db)\<rparr>)"
  using parse some
  by (auto simp: updateTodo_def update_where_id_returning_def Let_def first_map select_where_id_def)

text \<open>An update or a toggle leaves the database as it was or rewrites the rows of one id.\<close>

lemma updateTodo_shape:
  "snd (updateTodo now input db) = db \<or>
   (\<exists>i s. snd (updateTodo now input db) =
      db\<lparr>todos := map (\<lambda>r. if todo_id r = i then apply_set now s r else r) (todos db)\<rparr>)"
  by (auto simp: updateTodo_def update_where_id_returning_def Let_def split: sum.splits)

lemma toggleTodo_shape:
  "snd (toggleTodo now input db) = db \<or>
   (\<exists>i s. snd (toggleTodo now input db) =
      db\<lparr>todos := map (\<lambda>r. if todo_id r = i then apply_set now s r else r) (todos db)\<rparr>)"
  by (auto simp: toggleTodo_def update_where_id_returning_def split: sum.splits option.splits)

section \<open>Facts about runs\<close>

text \<open>The AUTOINCREMENT counter never decreases, and bounds every id a run has returned.\<close>

lemma sequence_exec: "sqlite_sequence db \<le> sqlite_sequence (exec c db)"
proof (cases c)
  case GetTodos
  then show ?thesis by (simp add: getTodos_def)
next
  case (CreateTodo tc tu input)
  then show ?thesis using next_rowid_gt_sequence [of db] by (simp add: createTodo_eq)
next
  case (UpdateTodo now input)
  then show ?thesis
    by (simp add: updateTodo_def update_where_id_returning_def Let_def split: sum.splits)
next
  case (ToggleTodo now input)
  then show ?thesis
    by (simp add: toggleTodo_def update_where_id_returning_def split: sum.splits option.splits)
next
  case (DeleteTodo input)
  then show ?thesis by (simp add: deleteTodo_def delete_where_id_def split: sum.splits)
next
  case DeleteCompletedTodos
  then show ?thesis
    by (simp add: deleteCompletedTodos_def delete_where_completed_returning_def)
qed

lemma sequence_run: "sqlite_sequence db \<le> sqlite_sequence (run cs db)"
proof (induction cs arbitrary: db)
  case Nil
  show ?case by simp
next
  case (Cons c cs)
  have "sqlite_sequence db \<le> sqlite_sequence (exec c db)" by (rule sequence_exec)
  also have "\<dots> \<le> sqlite_sequence (run cs (exec c db))" by (rule Cons.IH)
  finally show ?case by simp
qed

lemma created_id_le: "i \<in> set (created_id c db) \<Longrightarrow> i \<le> sqlite_sequence (exec c db)"
  by (cases c) (simp_all add: createTodo_eq)

lemma created_ids_le: "i \<in> set (created_ids cs db) \<Longrightarrow> i \<le> sqlite_sequence (run cs db)"
proof (induction cs arbitrary: db)
  case Nil
  then show ?case by simp
next
  case (Cons c cs)
  from Cons.prems consider "i \<in> set (created_id c db)" | "i \<in> set (created_ids cs (exec c db))"
    by auto
  then show ?case
  proof cases
    case 1
    then have "i \<le> sqlite_sequence (exec c db)" by (rule created_id_le)
    also have "\<dots> \<le> sqlite_sequence (run cs (exec c db))" by (rule sequence_run)
    finally show ?thesis by simp
  next
    case 2
    then show ?thesis using Cons.IH by simp
  qed
qed

text \<open>The primary key: the ids of the rows stay distinct.\<close>

lemma insert_key_distinct:
  "distinct (map todo_id (todos db)) \<Longrightarrow> distinct (map todo_id (todos (exec c db)))"
proof (cases c)
  case GetTodos
  assume "distinct (map todo_id (todos db))"
  then show ?thesis using GetTodos by (simp add: getTodos_def)
next
  case (CreateTodo tc tu input)
  assume d: "distinct (map todo_id (todos db))"
  have "next_rowid db \<notin> todo_id ` set (todos db)"
    using next_rowid_gt_row [of _ db] by force
  then show ?thesis using CreateTodo d by (simp add: createTodo_eq)
next
  case (UpdateTodo now input)
  assume d: "distinct (map todo_id (todos db))"
  have "map todo_id (map (\<lambda>r. if todo_id r = i then apply_set now s r else r) xs) = map todo_id xs"
    for i s xs by (induction xs) (simp_all add: apply_set_def)
  then show ?thesis using UpdateTodo d updateTodo_shape [of now input db]
    by (auto simp del: map_map)
next
  case (ToggleTodo now input)
  assume d: "distinct (map todo_id (todos db))"
  have "map todo_id (map (\<lambda>r. if todo_id r = i then apply_set now s r else r) xs) = map todo_id xs"
    for i s xs by (induction xs) (simp_all add: apply_set_def)
  then show ?thesis using ToggleTodo d toggleTodo_shape [of now input db]
    by (auto simp del: map_map)
next
  case (DeleteTodo input)
  assume "distinct (map todo_id (todos db))"
  then show ?thesis using DeleteTodo
    by (auto simp: deleteTodo_def delete_where_id_def distinct_map_filter split: sum.splits)
next
  case DeleteCompletedTodos
  assume "distinct (map todo_id (todos db))"
  then show ?thesis using DeleteCompletedTodos
    by (simp add: deleteCompletedTodos_def delete_where_completed_returning_def distinct_map_filter)
qed

lemma run_key_distinct:
  "distinct (map todo_id (todos db)) \<Longrightarrow> distinct (map todo_id (todos (run cs db)))"
  by (induction cs arbitrary: db) (simp_all add: insert_key_distinct)

lemma reachable_key_distinct: "distinct (map todo_id (todos (run cs empty_db)))"
  by (rule run_key_distinct) (simp add: empty_db_def)

text \<open>
  Timestamps: a row's createdAt is only ever written by the insert, and a rewritten row
  takes the clock reading of the update as its updatedAt.
\<close>

lemma set_update_rows:
  assumes "\<forall>r\<in>set xs. createdAt r \<le> updatedAt r" "\<forall>r\<in>set xs. createdAt r \<le> now"
  shows "\<forall>r\<in>set (map (\<lambda>r. if todo_id r = i then apply_set now s r else r) xs).
           createdAt r \<le> updatedAt r"
  using assms by (auto simp: apply_set_def)

lemma set_update_created:
  "createdAt ` set (map (\<lambda>r. if todo_id r = i then apply_set now s r else r) xs) = createdAt ` set xs"
proof -
  have "createdAt \<circ> (\<lambda>r. if todo_id r = i then apply_set now s r else r) = createdAt"
    by (auto simp: fun_eq_iff apply_set_def)
  then have "map createdAt (map (\<lambda>r. if todo_id r = i then apply_set now s r else r) xs) = map createdAt xs"
    by simp
  then have "set (map createdAt (map (\<lambda>r. if todo_id r = i then apply_set now s r else r) xs)) = set (map createdAt xs)"
    by (rule arg_cong)
  then show ?thesis by (simp only: set_map)
qed

lemma shape_createdAt:
  assumes "db' = db \<or>
    (\<exists>i s. db' = db\<lparr>todos := map (\<lambda>r. if todo_id r = i then apply_set now s r else r) (todos db)\<rparr>)"
  shows "createdAt ` set (todos db') = createdAt ` set (todos db)"
  using assms
proof (elim disjE exE)
  assume "db' = db"
  then show ?thesis by simp
next
  fix i s
  assume "db' = db\<lparr>todos := map (\<lambda>r. if todo_id r = i then apply_set now s r else r) (todos db)\<rparr>"
  then have "todos db' = map (\<lambda>r. if todo_id r = i then apply_set now s r else r) (todos db)"
    by simp
  then show ?thesis by (simp only: set_update_created)
qed

lemma exec_rows_ok:
  assumes inv: "\<forall>r\<in>set (todos db). createdAt r \<le> updatedAt r"
    and later: "\<forall>r\<in>set (todos db). \<forall>t\<in>set (readings c). createdAt r \<le> t"
    and mono: "sorted (readings c)"
  shows "\<forall>r\<in>set (todos (exec c db)). createdAt r \<le> updatedAt r"
proof (cases c)
  case GetTodos
  then show ?thesis using inv by (simp add: getTodos_def)
next
  case (CreateTodo tc tu input)
  then show ?thesis using inv mono by (auto simp: createTodo_eq)
next
  case (UpdateTodo now input)
  then have "\<forall>r\<in>set (todos db). createdAt r \<le> now" using later by simp
  then show ?thesis
    using set_update_rows [OF inv, of now] updateTodo_shape [of now input db] inv UpdateTodo
    by (auto simp del: set_map)
next
  case (ToggleTodo now input)
  then have "\<forall>r\<in>set (todos db). createdAt r \<le> now" using later by simp
  then show ?thesis
    using set_update_rows [OF inv, of now] toggleTodo_shape [of now input db] inv ToggleTodo
    by (auto simp del: set_map)
next
  case (DeleteTodo input)
  then show ?thesis using inv by (auto simp: deleteTodo_def delete_where_id_def split: sum.splits)
next
  case DeleteCompletedTodos
  then show ?thesis
    using inv by (auto simp: deleteCompletedTodos_def delete_where_completed_returning_def)
qed

lemma exec_createdAt:
  "createdAt ` set (todos (exec c db)) \<subseteq> createdAt ` set (todos db) \<union> set (readings c)"
proof (cases c)
  case GetTodos
  then show ?thesis by (simp add: getTodos_def)
next
  case (CreateTodo tc tu input)
  then show ?thesis by (auto simp: createTodo_eq)
next
  case (UpdateTodo now input)
  then show ?thesis
    using shape_createdAt [OF updateTodo_shape [of now input db]] by auto
next
  case (ToggleTodo now input)
  then show ?thesis
    using shape_createdAt [OF toggleTodo_shape [of now input db]] by auto
next
  case (DeleteTodo input)
  then show ?thesis by (auto simp: deleteTodo_def delete_where_id_def split: sum.splits)
next
  case DeleteCompletedTodos
  then show ?thesis
    by (auto simp: deleteCompletedTodos_def delete_where_completed_returning_def)
qed

lemma run_rows_ok:
  assumes "\<forall>r\<in>set (todos db). createdAt r \<le> updatedAt r"
    and "\<forall>r\<in>set (todos db). \<forall>t\<in>set (clock cs). createdAt r \<le> t"
    and "sorted (clock cs)"
  shows "\<forall>r\<in>set (todos (run cs db)). createdAt r \<le> updatedAt r"
  using assms
proof (induction cs arbitrary: db)
  case Nil
  then show ?case by simp
next
  case (Cons c cs)
  have split: "clock (c # cs) = readings c @ clock cs" by (simp add: clock_def)
  from Cons.prems(3) have s1: "sorted (readings c)" and s2: "sorted (clock cs)"
    and s3: "\<forall>x\<in>set (readings c). \<forall>y\<in>set (clock cs). x \<le> y"
    by (auto simp: split sorted_append)
  have later: "\<forall>r\<in>set (todos db). \<forall>t\<in>set (readings c). createdAt r \<le> t"
    using Cons.prems(2) by (simp add: split)
  have a: "\<forall>r\<in>set (todos (exec c db)). createdAt r \<le> updatedAt r"
    using Cons.prems(1) later s1 by (rule exec_rows_ok)
  have b: "\<forall>r\<in>set (todos (exec c db)). \<forall>t\<in>set (clock cs). createdAt r \<le> t"
  proof (intro ballI)
    fix r t assume r: "r \<in> set (todos (exec c db))" and t: "t \<in> set (clock cs)"
    from r exec_createdAt [of c db]
    consider r0 where "r0 \<in> set (todos db)" "createdAt r0 = createdAt r"
      | "createdAt r \<in> set (readings c)"
      by auto
    then show "createdAt r \<le> t"
    proof cases
      case 1
      then show ?thesis using Cons.prems(2) t by (auto simp: split)
    next
      case 2
      then show ?thesis using s3 t by simp
    qed
  qed
  show ?case using Cons.IH [OF a b s2] by simp
qed

section \<open>The claims\<close>

subsection \<open>C1: createTodo and invalid titles\<close>

text \<open>
  Claim C1 says that \<open>createTodo\<close> rejects a title that is empty after trimming or
  longer than 200 characters before it touches the table. The handler's validator is the
  identity function, so no title is rejected: on the empty table the empty title is
  inserted as row 1 and returned, and so is a title of 201 characters.
\<close>

theorem createTodo_accepts_empty_title:
  "createTodo tc tu \<lparr>input_title = ''''\<rparr> empty_db =
     (Inr (Some \<lparr>todo_id = 1, title = '''', completed = False, createdAt = tc, updatedAt = tu\<rparr>),
      \<lparr>todos = [\<lparr>todo_id = 1, title = '''', completed = False, createdAt = tc, updatedAt = tu\<rparr>],
       sqlite_sequence = 1\<rparr>)
   \<and> length (todos (snd (createTodo tc tu \<lparr>input_title = ''''\<rparr> empty_db))) =
       Suc (length (todos empty_db))
   \<and> length (replicate 201 CHR ''a'') = 201
   \<and> fst (createTodo tc tu \<lparr>input_title = replicate 201 CHR ''a''\<rparr> empty_db) =
       Inr (Some \<lparr>todo_id = 1, title = replicate 201 CHR ''a'', completed = False,
                  createdAt = tc, updatedAt = tu\<rparr>)"
  by (simp add: createTodo_def createTodo_inputValidator_def insert_returning_def next_rowid_def
      empty_db_def Let_def)

subsection \<open>C2: what createTodo returns\<close>

text \<open>
  Claim C2, as the code has it: in the state any run of calls from the empty database has
  reached, \<open>createTodo\<close> with a valid title returns a todo. The todo is not
  completed, its createdAt and updatedAt are the two clock readings of the insert (equal
  exactly when the two readings are), and its id is fresh: it is the id of no row of the
  table and of no todo that a \<open>createTodo\<close> of the run returned. The new row is
  appended to the table. The statement puts no condition on the input, so it applies to
  each valid title.
\<close>

theorem createTodo_returns:
  "\<exists>t db'. createTodo tc tu input (run cs empty_db) = (Inr (Some t), db')
      \<and> completed t = False
      \<and> createdAt t = tc \<and> updatedAt t = tu
      \<and> (createdAt t = updatedAt t) = (tc = tu)
      \<and> title t = input_title input
      \<and> todo_id t \<notin> set (created_ids cs empty_db)
      \<and> todo_id t \<notin> todo_id ` set (todos (run cs empty_db))
      \<and> todos db' = todos (run cs empty_db) @ [t]"
proof -
  let ?db = "run cs empty_db"
  have a: "next_rowid ?db \<notin> set (created_ids cs empty_db)"
    using created_ids_le [of "next_rowid ?db" cs empty_db] next_rowid_gt_sequence [of ?db]
    by auto
  have b: "next_rowid ?db \<notin> todo_id ` set (todos ?db)"
    using next_rowid_gt_row [of _ ?db] by force
  show ?thesis using a b by (simp add: createTodo_eq)
qed

text \<open>
  Claim C2 as stated asks for createdAt = updatedAt. The two columns read the clock
  separately; when the millisecond changes between the two readings the returned todo has
  different timestamps.
\<close>

theorem createTodo_timestamps_differ:
  "createTodo ''2026-11-02T12:20:00.999Z'' ''2026-11-02T12:20:01.000Z''
      \<lparr>input_title = ''Buy milk''\<rparr> empty_db =
     (Inr (Some \<lparr>todo_id = 1, title = ''Buy milk'', completed = False,
                 createdAt = ''2026-11-02T12:20:00.999Z'',
                 updatedAt = ''2026-11-02T12:20:01.000Z''\<rparr>),
      \<lparr>todos = [\<lparr>todo_id = 1, title = ''Buy milk'', completed = False,
                   createdAt = ''2026-11-02T12:20:00.999Z'',
                   updatedAt = ''2026-11-02T12:20:01.000Z''\<rparr>],
       sqlite_sequence = 1\<rparr>)
   \<and> ''2026-11-02T12:20:00.999Z'' \<noteq> ''2026-11-02T12:20:01.000Z''"
  by (simp add: createTodo_def createTodo_inputValidator_def insert_returning_def next_rowid_def
      empty_db_def Let_def)

text \<open>
  The theorem at a run that creates todo 1 and deletes it: the next todo does not get
  id 1 again.
\<close>

theorem createTodo_returns_witness:
  "run [CreateTodo ''2026-11-02T12:20:00.000Z'' ''2026-11-02T12:20:00.000Z''
          \<lparr>input_title = ''Buy milk''\<rparr>,
        DeleteTodo (JObject [(''id'', JNumber 1)])] empty_db =
     \<lparr>todos = [], sqlite_sequence = 1\<rparr>
   \<and> created_ids [CreateTodo ''2026-11-02T12:20:00.000Z'' ''2026-11-02T12:20:00.000Z''
                    \<lparr>input_title = ''Buy milk''\<rparr>,
                  DeleteTodo (JObject [(''id'', JNumber 1)])] empty_db = [1]
   \<and> (\<exists>t db'. createTodo ''2026-11-02T12:20:07.000Z'' ''2026-11-02T12:20:07.000Z''
                  \<lparr>input_title = ''Walk dog''\<rparr> \<lparr>todos = [], sqlite_sequence = 1\<rparr> =
                (Inr (Some t), db')
              \<and> completed t = False \<and> createdAt t = updatedAt t \<and> todo_id t \<noteq> 1)"
proof -
  let ?cs = "[CreateTodo ''2026-11-02T12:20:00.000Z'' ''2026-11-02T12:20:00.000Z''
                \<lparr>input_title = ''Buy milk''\<rparr>,
              DeleteTodo (JObject [(''id'', JNumber 1)])]"
  have r: "run ?cs empty_db = \<lparr>todos = [], sqlite_sequence = 1\<rparr>"
    by (simp add: eval_defs)
  have c: "created_ids ?cs empty_db = [1]"
    by (simp add: eval_defs)
  show ?thesis
    using r c createTodo_returns [of "''2026-11-02T12:20:07.000Z''" "''2026-11-02T12:20:07.000Z''"
        "\<lparr>input_title = ''Walk dog''\<rparr>" ?cs]
    by auto
qed

subsection \<open>C3: deleteCompletedTodos\<close>

text \<open>
  Claim C3: \<open>deleteCompletedTodos\<close> returns the number of rows that were completed
  when it was called, leaves exactly the rows that were not completed, each as it was and in
  the same order, and a \<open>getTodos\<close> after it returns those rows and none of the removed
  ones.
\<close>

theorem deleteCompletedTodos_exact:
  "\<exists>db' listed.
      deleteCompletedTodos db =
        (Inr \<lparr>deletedCount = length (filter completed (todos db))\<rparr>, db')
    \<and> todos db' = filter (\<lambda>r. \<not> completed r) (todos db)
    \<and> sqlite_sequence db' = sqlite_sequence db
    \<and> getTodos db' = (Inr listed, db')
    \<and> set listed = {r \<in> set (todos db). \<not> completed r}
    \<and> set listed \<inter> set (filter completed (todos db)) = {}"
  by (auto simp: deleteCompletedTodos_def delete_where_completed_returning_def getTodos_def
      select_orderBy_desc_createdAt_def)

text \<open>
  The theorem on a table with one completed and one open todo.
\<close>

theorem deleteCompletedTodos_exact_witness:
  "deleteCompletedTodos
     \<lparr>todos =
        [\<lparr>todo_id = 1, title = ''Buy milk'', completed = True,
          createdAt = ''2026-11-02T12:20:00.000Z'', updatedAt = ''2026-11-02T12:20:04.000Z''\<rparr>,
         \<lparr>todo_id = 2, title = ''Walk dog'', completed = False,
          createdAt = ''2026-11-02T12:20:01.000Z'', updatedAt = ''2026-11-02T12:20:01.000Z''\<rparr>],
      sqlite_sequence = 2\<rparr> =
   (Inr \<lparr>deletedCount = 1\<rparr>,
    \<lparr>todos =
        [\<lparr>todo_id = 2, title = ''Walk dog'', completed = False,
          createdAt = ''2026-11-02T12:20:01.000Z'', updatedAt = ''2026-11-02T12:20:01.000Z''\<rparr>],
      sqlite_sequence = 2\<rparr>)"
proof -
  let ?db = "\<lparr>todos =
        [\<lparr>todo_id = 1, title = ''Buy milk'', completed = True,
          createdAt = ''2026-11-02T12:20:00.000Z'', updatedAt = ''2026-11-02T12:20:04.000Z''\<rparr>,
         \<lparr>todo_id = 2, title = ''Walk dog'', completed = False,
          createdAt = ''2026-11-02T12:20:01.000Z'', updatedAt = ''2026-11-02T12:20:01.000Z''\<rparr>],
      sqlite_sequence = 2\<rparr>"
  from deleteCompletedTodos_exact [of ?db]
  obtain db' where
    d: "deleteCompletedTodos ?db = (Inr \<lparr>deletedCount = 1\<rparr>, db')" and
    rows: "todos db' = [\<lparr>todo_id = 2, title = ''Walk dog'', completed = False,
          createdAt = ''2026-11-02T12:20:01.000Z'', updatedAt = ''2026-11-02T12:20:01.000Z''\<rparr>]" and
    seq: "sqlite_sequence db' = 2"
    by auto
  from rows seq have "db' = \<lparr>todos =
        [\<lparr>todo_id = 2, title = ''Walk dog'', completed = False,
          createdAt = ''2026-11-02T12:20:01.000Z'', updatedAt = ''2026-11-02T12:20:01.000Z''\<rparr>],
      sqlite_sequence = 2\<rparr>" by (cases db') simp
  then show ?thesis using d by simp
qed

subsection \<open>C4: toggling twice\<close>

text \<open>
  Claim C4: on a table with distinct ids that has a row \<open>c\<close> with the id, two
  \<open>toggleTodo\<close> calls in sequence both return a todo; the first returns \<open>c\<close> with
  \<open>completed\<close> negated and updatedAt set to the first call's clock reading, the second
  returns \<open>c\<close> with its original \<open>completed\<close> and updatedAt set to the second call's
  reading. The table ends as it began except for that row's updatedAt.
\<close>

theorem toggleTodo_twice:
  assumes parse: "idSchema_parse input = Inr i"
    and key: "distinct (map todo_id (todos db))"
    and present: "i \<in> todo_id ` set (todos db)"
  shows "\<exists>c db1 db2.
           c \<in> set (todos db) \<and> todo_id c = i
         \<and> toggleTodo now1 input db =
             (Inr (Some (c\<lparr>completed := \<not> completed c, updatedAt := now1\<rparr>)), db1)
         \<and> toggleTodo now2 input db1 = (Inr (Some (c\<lparr>updatedAt := now2\<rparr>)), db2)
         \<and> todos db1 = map (\<lambda>r. if todo_id r = i
                                  then r\<lparr>completed := \<not> completed r, updatedAt := now1\<rparr>
                                  else r) (todos db)
         \<and> todos db2 = map (\<lambda>r. if todo_id r = i then r\<lparr>updatedAt := now2\<rparr> else r) (todos db)
         \<and> sqlite_sequence db2 = sqlite_sequence db"
proof -
  let ?f1 = "\<lambda>r. if todo_id r = i then r\<lparr>completed := \<not> completed r, updatedAt := now1\<rparr> else r"
  let ?f2 = "\<lambda>r. if todo_id r = i then r\<lparr>completed := \<not> completed r, updatedAt := now2\<rparr> else r"
  let ?db1 = "db\<lparr>todos := map ?f1 (todos db)\<rparr>"
  let ?db2 = "?db1\<lparr>todos := map ?f2 (todos ?db1)\<rparr>"
  from present obtain c where c: "first (select_where_id i db) = Some c"
    using first_filter_present [of i todo_id "todos db"] by (auto simp: select_where_id_def)
  then have cin: "c \<in> set (todos db) \<and> todo_id c = i"
    using first_filter_Some [of "\<lambda>r. todo_id r = i" "todos db" c]
    by (simp add: select_where_id_def)
  have t1: "toggleTodo now1 input db =
              (Inr (Some (c\<lparr>completed := \<not> completed c, updatedAt := now1\<rparr>)), ?db1)"
    by (rule toggleTodo_present [OF parse key c])
  have "todo_id \<circ> ?f1 = todo_id" by (auto simp: fun_eq_iff)
  then have ids: "map todo_id (todos ?db1) = map todo_id (todos db)"
    by simp
  have key1: "distinct (map todo_id (todos ?db1))"
    using key by (simp only: ids)
  have "first (filter (\<lambda>r. todo_id r = i) (map ?f1 (todos db))) =
          map_option ?f1 (first (filter (\<lambda>r. todo_id r = i) (todos db)))"
    by (rule first_filter_map_keep) simp
  then have c1: "first (select_where_id i ?db1) =
                   Some (c\<lparr>completed := \<not> completed c, updatedAt := now1\<rparr>)"
    using c cin by (simp add: select_where_id_def del: filter_map)
  have t2: "toggleTodo now2 input ?db1 = (Inr (Some (c\<lparr>updatedAt := now2\<rparr>)), ?db2)"
    using toggleTodo_present [OF parse key1 c1, of now2] by simp
  have rows2: "todos ?db2 = map (\<lambda>r. if todo_id r = i then r\<lparr>updatedAt := now2\<rparr> else r) (todos db)"
    by (simp add: comp_def)
  show ?thesis using cin t1 t2 rows2 by (intro exI [of _ c] exI [of _ ?db1] exI [of _ ?db2]) simp
qed

text \<open>
  The theorem on a table with one completed todo.
\<close>

theorem toggleTodo_twice_witness:
  "idSchema_parse (JObject [(''id'', JNumber 1)]) = Inr 1
   \<and> toggleTodo ''2026-11-02T12:20:09.000Z'' (JObject [(''id'', JNumber 1)])
        (snd (toggleTodo ''2026-11-02T12:20:08.000Z'' (JObject [(''id'', JNumber 1)])
           \<lparr>todos =
              [\<lparr>todo_id = 1, title = ''Buy milk'', completed = True,
                createdAt = ''2026-11-02T12:20:00.000Z'',
                updatedAt = ''2026-11-02T12:20:04.000Z''\<rparr>],
            sqlite_sequence = 1\<rparr>)) =
      (Inr (Some \<lparr>todo_id = 1, title = ''Buy milk'', completed = True,
                  createdAt = ''2026-11-02T12:20:00.000Z'',
                  updatedAt = ''2026-11-02T12:20:09.000Z''\<rparr>),
       \<lparr>todos =
          [\<lparr>todo_id = 1, title = ''Buy milk'', completed = True,
            createdAt = ''2026-11-02T12:20:00.000Z'', updatedAt = ''2026-11-02T12:20:09.000Z''\<rparr>],
        sqlite_sequence = 1\<rparr>)"
proof -
  let ?db = "\<lparr>todos =
              [\<lparr>todo_id = 1, title = ''Buy milk'', completed = True,
                createdAt = ''2026-11-02T12:20:00.000Z'',
                updatedAt = ''2026-11-02T12:20:04.000Z''\<rparr>],
            sqlite_sequence = 1\<rparr>"
  have h1: "idSchema_parse (JObject [(''id'', JNumber 1)]) = Inr 1"
    by (simp add: idSchema_parse_def property_def z_number_int_positive_def)
  have h2: "distinct (map todo_id (todos ?db))" by simp
  have h3: "1 \<in> todo_id ` set (todos ?db)" by simp
  from toggleTodo_twice [OF h1 h2 h3, of "''2026-11-02T12:20:08.000Z''" "''2026-11-02T12:20:09.000Z''"]
  obtain c db1 db2 where
    c: "c \<in> set (todos ?db)" and
    t1: "toggleTodo ''2026-11-02T12:20:08.000Z'' (JObject [(''id'', JNumber 1)]) ?db =
           (Inr (Some (c\<lparr>completed := \<not> completed c, updatedAt := ''2026-11-02T12:20:08.000Z''\<rparr>)), db1)" and
    t2: "toggleTodo ''2026-11-02T12:20:09.000Z'' (JObject [(''id'', JNumber 1)]) db1 =
           (Inr (Some (c\<lparr>updatedAt := ''2026-11-02T12:20:09.000Z''\<rparr>)), db2)" and
    r2: "todos db2 = map (\<lambda>r. if todo_id r = 1 then r\<lparr>updatedAt := ''2026-11-02T12:20:09.000Z''\<rparr> else r) (todos ?db)" and
    s2: "sqlite_sequence db2 = sqlite_sequence ?db"
    by blast
  from r2 s2 have "db2 = \<lparr>todos =
          [\<lparr>todo_id = 1, title = ''Buy milk'', completed = True,
            createdAt = ''2026-11-02T12:20:00.000Z'', updatedAt = ''2026-11-02T12:20:09.000Z''\<rparr>],
        sqlite_sequence = 1\<rparr>" by (cases db2) simp
  then show ?thesis using h1 c t1 t2 by simp
qed

subsection \<open>C5: toggling an id that has no row\<close>

text \<open>
  Claim C5: for an input that \<open>idSchema\<close> accepts with an id that no row has,
  \<open>toggleTodo\<close> resolves to \<open>null\<close> and leaves the database as it was.
\<close>

theorem toggleTodo_absent:
  assumes "idSchema_parse input = Inr i" "i \<notin> todo_id ` set (todos db)"
  shows "toggleTodo now input db = (Inr None, db)"
proof -
  have "first (select_where_id i db) = None"
    using assms(2) by (auto simp: select_where_id_def first_filter_None)
  then show ?thesis using assms(1) by (simp add: toggleTodo_def)
qed

text \<open>
  The theorem at id 9999 on the empty database.
\<close>

theorem toggleTodo_absent_witness:
  "idSchema_parse (JObject [(''id'', JNumber 9999)]) = Inr 9999
   \<and> 9999 \<notin> todo_id ` set (todos empty_db)
   \<and> toggleTodo ''2026-11-02T12:20:00.000Z'' (JObject [(''id'', JNumber 9999)]) empty_db =
       (Inr None, empty_db)"
proof -
  have h1: "idSchema_parse (JObject [(''id'', JNumber 9999)]) = Inr 9999"
    by (simp add: idSchema_parse_def property_def z_number_int_positive_def)
  have h2: "9999 \<notin> todo_id ` set (todos empty_db)"
    by (simp add: empty_db_def)
  show ?thesis using h1 h2 toggleTodo_absent [OF h1 h2] by simp
qed

subsection \<open>C6: updateTodo\<close>

text \<open>
  Claim C6 says that \<open>updateTodo\<close> refreshes updatedAt also when the input supplies
  neither a title nor a completed flag, and returns \<open>null\<close> without an error when no
  row has the id. The schema accepts the input \<open>{id: 1}\<close>; the handler passes the
  empty object to \<open>set\<close>, and \<open>set\<close> throws. On a table that has row 1 the
  call fails and the row keeps its updatedAt; on the empty table the call fails where the
  handler's own \<open>updated ?? null\<close> and \<open>toggleTodo\<close> return \<open>null\<close>.
\<close>

theorem updateTodo_no_fields_throws:
  "updateTodoSchema_parse (JObject [(''id'', JNumber 1)]) =
     Inr \<lparr>data_id = 1, data_title = None, data_completed = None\<rparr>
   \<and> updateTodo ''2026-11-02T12:20:05.000Z'' (JObject [(''id'', JNumber 1)])
       \<lparr>todos = [\<lparr>todo_id = 1, title = ''Buy milk'', completed = False,
                   createdAt = ''2026-11-02T12:20:00.000Z'',
                   updatedAt = ''2026-11-02T12:20:00.000Z''\<rparr>],
        sqlite_sequence = 1\<rparr> =
     (Inl NoValuesToSet,
      \<lparr>todos = [\<lparr>todo_id = 1, title = ''Buy milk'', completed = False,
                   createdAt = ''2026-11-02T12:20:00.000Z'',
                   updatedAt = ''2026-11-02T12:20:00.000Z''\<rparr>],
        sqlite_sequence = 1\<rparr>)
   \<and> updateTodo ''2026-11-02T12:20:05.000Z'' (JObject [(''id'', JNumber 1)]) empty_db =
     (Inl NoValuesToSet, empty_db)"
  by (simp add: updateTodo_def updateTodoSchema_parse_def property_def z_number_int_positive_def
      z_string_min1_max200_optional_def z_boolean_optional_def update_where_id_returning_def)

text \<open>
  The same holds for every accepted input that supplies neither field, on every database.
\<close>

lemma updateTodo_no_fields:
  assumes "updateTodoSchema_parse input = Inr d" "data_title d = None" "data_completed d = None"
  shows "updateTodo now input db = (Inl NoValuesToSet, db)"
  using assms by (simp add: updateTodo_def update_where_id_returning_def)

text \<open>
  With a title or a completed flag supplied, \<open>updateTodo\<close> returns without an
  error. Every row with the id takes the supplied fields and the clock reading as updatedAt
  and keeps its other fields; the ids and the createdAt values of the table, every other
  row and the AUTOINCREMENT counter are unchanged. The result is the rewritten row, and
  \<open>null\<close> with the database unchanged when no row has the id.
\<close>

theorem updateTodo_partial:
  assumes parse: "updateTodoSchema_parse input = Inr d"
    and some: "data_title d \<noteq> None \<or> data_completed d \<noteq> None"
  shows "\<exists>result db'.
           updateTodo now input db = (Inr result, db')
         \<and> todos db' =
             map (\<lambda>r. if todo_id r = data_id d
                       then r\<lparr>title := (case data_title d of None \<Rightarrow> title r | Some t \<Rightarrow> t),
                              completed := (case data_completed d of None \<Rightarrow> completed r | Some c \<Rightarrow> c),
                              updatedAt := now\<rparr>
                       else r) (todos db)
         \<and> map todo_id (todos db') = map todo_id (todos db)
         \<and> map createdAt (todos db') = map createdAt (todos db)
         \<and> sqlite_sequence db' = sqlite_sequence db
         \<and> result =
             map_option
               (\<lambda>r. r\<lparr>title := (case data_title d of None \<Rightarrow> title r | Some t \<Rightarrow> t),
                       completed := (case data_completed d of None \<Rightarrow> completed r | Some c \<Rightarrow> c),
                       updatedAt := now\<rparr>)
               (first (filter (\<lambda>r. todo_id r = data_id d) (todos db)))
         \<and> (data_id d \<notin> todo_id ` set (todos db) \<longrightarrow> result = None \<and> db' = db)"
proof -
  let ?s = "\<lparr>set_title = data_title d, set_completed = data_completed d\<rparr>"
  let ?g = "\<lambda>r. r\<lparr>title := (case data_title d of None \<Rightarrow> title r | Some t \<Rightarrow> t),
                  completed := (case data_completed d of None \<Rightarrow> completed r | Some c \<Rightarrow> c),
                  updatedAt := now\<rparr>"
  let ?f = "\<lambda>r. if todo_id r = data_id d then ?g r else r"
  have g: "apply_set now ?s = ?g" by (simp add: apply_set_def fun_eq_iff)
  have eq: "updateTodo now input db =
              (Inr (map_option ?g (first (filter (\<lambda>r. todo_id r = data_id d) (todos db)))),
               db\<lparr>todos := map ?f (todos db)\<rparr>)"
    using updateTodo_eq [OF parse some, of now db] by (simp only: g select_where_id_def)
  have "todo_id \<circ> ?f = todo_id" by (auto simp: fun_eq_iff)
  then have ids: "map todo_id (map ?f (todos db)) = map todo_id (todos db)" by simp
  have "createdAt \<circ> ?f = createdAt" by (auto simp: fun_eq_iff)
  then have cs: "map createdAt (map ?f (todos db)) = map createdAt (todos db)" by simp
  have absent: "data_id d \<notin> todo_id ` set (todos db) \<longrightarrow>
      map_option ?g (first (filter (\<lambda>r. todo_id r = data_id d) (todos db))) = None
      \<and> db\<lparr>todos := map ?f (todos db)\<rparr> = db"
  proof
    assume a: "data_id d \<notin> todo_id ` set (todos db)"
    then have "first (filter (\<lambda>r. todo_id r = data_id d) (todos db)) = None"
      by (force simp: first_filter_None)
    moreover have "map ?f (todos db) = todos db" using a by (rule map_unchanged)
    ultimately show "map_option ?g (first (filter (\<lambda>r. todo_id r = data_id d) (todos db))) = None
      \<and> db\<lparr>todos := map ?f (todos db)\<rparr> = db" by simp
  qed
  show ?thesis
    apply (rule exI [of _ "map_option ?g (first (filter (\<lambda>r. todo_id r = data_id d) (todos db)))"])
    apply (rule exI [of _ "db\<lparr>todos := map ?f (todos db)\<rparr>"])
    using eq ids cs absent apply simp
    done
qed

text \<open>
  That statement at an input that changes the title of todo 1, on a table that has the row
  and on the empty database.
\<close>

theorem updateTodo_partial_witness:
  "updateTodoSchema_parse (JObject [(''id'', JNumber 1), (''title'', JString ''Buy oat milk'')]) =
     Inr \<lparr>data_id = 1, data_title = Some ''Buy oat milk'', data_completed = None\<rparr>
   \<and> updateTodo ''2026-11-02T12:20:09.000Z''
        (JObject [(''id'', JNumber 1), (''title'', JString ''Buy oat milk'')])
        \<lparr>todos =
           [\<lparr>todo_id = 1, title = ''Buy milk'', completed = True,
             createdAt = ''2026-11-02T12:20:00.000Z'', updatedAt = ''2026-11-02T12:20:04.000Z''\<rparr>],
         sqlite_sequence = 1\<rparr> =
      (Inr (Some \<lparr>todo_id = 1, title = ''Buy oat milk'', completed = True,
                  createdAt = ''2026-11-02T12:20:00.000Z'',
                  updatedAt = ''2026-11-02T12:20:09.000Z''\<rparr>),
       \<lparr>todos =
           [\<lparr>todo_id = 1, title = ''Buy oat milk'', completed = True,
             createdAt = ''2026-11-02T12:20:00.000Z'', updatedAt = ''2026-11-02T12:20:09.000Z''\<rparr>],
         sqlite_sequence = 1\<rparr>)
   \<and> updateTodo ''2026-11-02T12:20:09.000Z''
        (JObject [(''id'', JNumber 1), (''title'', JString ''Buy oat milk'')]) empty_db =
      (Inr None, empty_db)"
proof -
  let ?input = "JObject [(''id'', JNumber 1), (''title'', JString ''Buy oat milk'')]"
  let ?d = "\<lparr>data_id = 1, data_title = Some ''Buy oat milk'', data_completed = None\<rparr>"
  let ?db = "\<lparr>todos =
           [\<lparr>todo_id = 1, title = ''Buy milk'', completed = True,
             createdAt = ''2026-11-02T12:20:00.000Z'', updatedAt = ''2026-11-02T12:20:04.000Z''\<rparr>],
         sqlite_sequence = 1\<rparr>"
  have h1: "updateTodoSchema_parse ?input = Inr ?d"
    by (simp add: updateTodoSchema_parse_def property_def z_number_int_positive_def
        z_string_min1_max200_optional_def z_boolean_optional_def)
  have h2: "data_title ?d \<noteq> None \<or> data_completed ?d \<noteq> None" by simp
  from updateTodo_partial [OF h1 h2, of "''2026-11-02T12:20:09.000Z''" ?db]
  obtain result db' where
    u: "updateTodo ''2026-11-02T12:20:09.000Z'' ?input ?db = (Inr result, db')" and
    rows: "todos db' = [\<lparr>todo_id = 1, title = ''Buy oat milk'', completed = True,
             createdAt = ''2026-11-02T12:20:00.000Z'', updatedAt = ''2026-11-02T12:20:09.000Z''\<rparr>]" and
    seq: "sqlite_sequence db' = 1" and
    res: "result = Some \<lparr>todo_id = 1, title = ''Buy oat milk'', completed = True,
                  createdAt = ''2026-11-02T12:20:00.000Z'',
                  updatedAt = ''2026-11-02T12:20:09.000Z''\<rparr>"
    by auto
  from rows seq have db': "db' = \<lparr>todos =
           [\<lparr>todo_id = 1, title = ''Buy oat milk'', completed = True,
             createdAt = ''2026-11-02T12:20:00.000Z'', updatedAt = ''2026-11-02T12:20:09.000Z''\<rparr>],
         sqlite_sequence = 1\<rparr>" by (cases db') simp
  from updateTodo_partial [OF h1 h2, of "''2026-11-02T12:20:09.000Z''" empty_db]
  have e: "updateTodo ''2026-11-02T12:20:09.000Z'' ?input empty_db = (Inr None, empty_db)"
    by (auto simp: empty_db_def)
  show ?thesis using h1 u res db' e by simp
qed

subsection \<open>C7: getTodos\<close>

text \<open>
  Claim C7: \<open>getTodos\<close> returns a list and leaves the database as it was; the list
  holds exactly the rows of the table, ordered by createdAt descending; on a table without
  rows it is empty.
\<close>

theorem getTodos_ordered:
  "\<exists>listed. getTodos db = (Inr listed, db)
     \<and> sorted_wrt (\<lambda>a b. createdAt a \<ge> createdAt b) listed
     \<and> mset listed = mset (todos db)
     \<and> getTodos (db\<lparr>todos := []\<rparr>) = (Inr [], db\<lparr>todos := []\<rparr>)"
proof -
  let ?l = "select_orderBy_desc_createdAt db"
  have "sorted (map createdAt (sort_key createdAt (rev (todos db))))" by simp
  then have "sorted_wrt (\<lambda>a b. createdAt b \<le> createdAt a) ?l"
    by (simp add: select_orderBy_desc_createdAt_def sorted_wrt_rev sorted_map)
  moreover have "mset ?l = mset (todos db)"
    by (simp add: select_orderBy_desc_createdAt_def)
  ultimately show ?thesis
    by (simp add: getTodos_def select_orderBy_desc_createdAt_def)
qed

subsection \<open>C8: deleteTodo\<close>

text \<open>
  Claim C8: for an input that \<open>idSchema\<close> accepts, \<open>deleteTodo\<close> acknowledges
  success on any database, so also when no row has the id; it leaves the rows with another
  id; and a second call on the database the first one left acknowledges success again and
  changes nothing.
\<close>

theorem deleteTodo_idempotent:
  assumes "idSchema_parse input = Inr i"
  shows "\<exists>db'. deleteTodo input db = (Inr \<lparr>success = True\<rparr>, db')
           \<and> deleteTodo input db' = (Inr \<lparr>success = True\<rparr>, db')
           \<and> todos db' = filter (\<lambda>r. todo_id r \<noteq> i) (todos db)
           \<and> sqlite_sequence db' = sqlite_sequence db"
  using assms by (simp add: deleteTodo_def delete_where_id_def)

text \<open>
  The theorem at id 9999 on the empty database.
\<close>

theorem deleteTodo_idempotent_witness:
  "idSchema_parse (JObject [(''id'', JNumber 9999)]) = Inr 9999
   \<and> (\<exists>db'. deleteTodo (JObject [(''id'', JNumber 9999)]) empty_db = (Inr \<lparr>success = True\<rparr>, db')
           \<and> deleteTodo (JObject [(''id'', JNumber 9999)]) db' = (Inr \<lparr>success = True\<rparr>, db')
           \<and> todos db' = [])"
proof -
  have h1: "idSchema_parse (JObject [(''id'', JNumber 9999)]) = Inr 9999"
    by (simp add: idSchema_parse_def property_def z_number_int_positive_def)
  show ?thesis using h1 deleteTodo_idempotent [OF h1, of empty_db] by (auto simp: empty_db_def)
qed

subsection \<open>C9: updatedAt is not before createdAt\<close>

text \<open>
  Claim C9, as the code has it: when the clock readings of a run never decrease, every
  row of the database that the run leaves, started on the empty database, has
  createdAt \<open>\<le>\<close> updatedAt. Every prefix of such a run is such a run, so this holds
  after every call.
\<close>

theorem updatedAt_ge_createdAt:
  assumes "sorted (clock cs)"
  shows "list_all (\<lambda>r. createdAt r \<le> updatedAt r) (todos (run cs empty_db))"
proof -
  have "\<forall>r\<in>set (todos (run cs empty_db)). createdAt r \<le> updatedAt r"
    by (rule run_rows_ok) (simp_all add: empty_db_def assms)
  then show ?thesis by (simp add: list_all_iff)
qed

text \<open>
  Claim C9 as stated holds for every run. The timestamps come from the wall clock; when
  it is set back between a create and a toggle, the row's updatedAt is before its
  createdAt.
\<close>

theorem updatedAt_before_createdAt:
  "run [CreateTodo ''2026-11-02T12:20:00.000Z'' ''2026-11-02T12:20:00.000Z''
          \<lparr>input_title = ''Buy milk''\<rparr>,
        ToggleTodo ''2026-11-02T12:19:59.000Z'' (JObject [(''id'', JNumber 1)])] empty_db =
     \<lparr>todos = [\<lparr>todo_id = 1, title = ''Buy milk'', completed = True,
                 createdAt = ''2026-11-02T12:20:00.000Z'',
                 updatedAt = ''2026-11-02T12:19:59.000Z''\<rparr>],
      sqlite_sequence = 1\<rparr>
   \<and> \<not> ''2026-11-02T12:20:00.000Z'' \<le> ''2026-11-02T12:19:59.000Z''"
  by (simp add: eval_defs)

text \<open>
  The theorem at a run that creates a todo and toggles it three seconds later.
\<close>

theorem updatedAt_ge_createdAt_witness:
  "sorted (clock [CreateTodo ''2026-11-02T12:20:00.000Z'' ''2026-11-02T12:20:00.001Z''
                    \<lparr>input_title = ''Buy milk''\<rparr>,
                  ToggleTodo ''2026-11-02T12:20:03.000Z'' (JObject [(''id'', JNumber 1)])])
   \<and> list_all (\<lambda>r. createdAt r \<le> updatedAt r)
       (todos (run [CreateTodo ''2026-11-02T12:20:00.000Z'' ''2026-11-02T12:20:00.001Z''
                      \<lparr>input_title = ''Buy milk''\<rparr>,
                    ToggleTodo ''2026-11-02T12:20:03.000Z'' (JObject [(''id'', JNumber 1)])]
                 empty_db))
   \<and> todos (run [CreateTodo ''2026-11-02T12:20:00.000Z'' ''2026-11-02T12:20:00.001Z''
                      \<lparr>input_title = ''Buy milk''\<rparr>,
                    ToggleTodo ''2026-11-02T12:20:03.000Z'' (JObject [(''id'', JNumber 1)])]
                 empty_db) =
       [\<lparr>todo_id = 1, title = ''Buy milk'', completed = True,
         createdAt = ''2026-11-02T12:20:00.000Z'', updatedAt = ''2026-11-02T12:20:03.000Z''\<rparr>]"
proof -
  let ?cs = "[CreateTodo ''2026-11-02T12:20:00.000Z'' ''2026-11-02T12:20:00.001Z''
                    \<lparr>input_title = ''Buy milk''\<rparr>,
                  ToggleTodo ''2026-11-02T12:20:03.000Z'' (JObject [(''id'', JNumber 1)])]"
  have h: "sorted (clock ?cs)" by (simp add: clock_def)
  have r: "todos (run ?cs empty_db) =
       [\<lparr>todo_id = 1, title = ''Buy milk'', completed = True,
         createdAt = ''2026-11-02T12:20:00.000Z'', updatedAt = ''2026-11-02T12:20:03.000Z''\<rparr>]"
    by (simp add: eval_defs)
  show ?thesis using h r updatedAt_ge_createdAt [OF h] by simp
qed

subsection \<open>C10: what toggleTodo changes\<close>

text \<open>
  Claim C10: on a table with distinct ids that has a row \<open>c\<close> with the id,
  \<open>toggleTodo\<close> returns \<open>c\<close> with \<open>completed\<close> negated and updatedAt set to the
  clock reading; in the table that row changes in these two fields only and every other
  row, the order of the rows and the AUTOINCREMENT counter are unchanged.
\<close>

theorem toggleTodo_frame:
  assumes "idSchema_parse input = Inr i"
    and "distinct (map todo_id (todos db))"
    and "i \<in> todo_id ` set (todos db)"
  shows "\<exists>c. c \<in> set (todos db) \<and> todo_id c = i
           \<and> toggleTodo now input db =
               (Inr (Some (c\<lparr>completed := \<not> completed c, updatedAt := now\<rparr>)),
                db\<lparr>todos := map (\<lambda>r. if todo_id r = i
                                       then r\<lparr>completed := \<not> completed r, updatedAt := now\<rparr>
                                       else r) (todos db)\<rparr>)"
proof -
  from assms(3) obtain c where c: "first (select_where_id i db) = Some c"
    using first_filter_present [of i todo_id "todos db"] by (auto simp: select_where_id_def)
  then have "c \<in> set (todos db) \<and> todo_id c = i"
    using first_filter_Some [of "\<lambda>r. todo_id r = i" "todos db" c]
    by (simp add: select_where_id_def)
  then show ?thesis using toggleTodo_present [OF assms(1,2) c] by blast
qed

text \<open>
  The theorem on a table with two todos, toggling the second.
\<close>

theorem toggleTodo_frame_witness:
  "idSchema_parse (JObject [(''id'', JNumber 2)]) = Inr 2
   \<and> distinct (map todo_id
        [\<lparr>todo_id = 1, title = ''Buy milk'', completed = True,
          createdAt = ''2026-11-02T12:20:00.000Z'', updatedAt = ''2026-11-02T12:20:04.000Z''\<rparr>,
         \<lparr>todo_id = 2, title = ''Walk dog'', completed = False,
          createdAt = ''2026-11-02T12:20:01.000Z'', updatedAt = ''2026-11-02T12:20:01.000Z''\<rparr>])
   \<and> toggleTodo ''2026-11-02T12:20:09.000Z'' (JObject [(''id'', JNumber 2)])
       \<lparr>todos =
          [\<lparr>todo_id = 1, title = ''Buy milk'', completed = True,
            createdAt = ''2026-11-02T12:20:00.000Z'', updatedAt = ''2026-11-02T12:20:04.000Z''\<rparr>,
           \<lparr>todo_id = 2, title = ''Walk dog'', completed = False,
            createdAt = ''2026-11-02T12:20:01.000Z'', updatedAt = ''2026-11-02T12:20:01.000Z''\<rparr>],
        sqlite_sequence = 2\<rparr> =
      (Inr (Some \<lparr>todo_id = 2, title = ''Walk dog'', completed = True,
                  createdAt = ''2026-11-02T12:20:01.000Z'',
                  updatedAt = ''2026-11-02T12:20:09.000Z''\<rparr>),
       \<lparr>todos =
          [\<lparr>todo_id = 1, title = ''Buy milk'', completed = True,
            createdAt = ''2026-11-02T12:20:00.000Z'', updatedAt = ''2026-11-02T12:20:04.000Z''\<rparr>,
           \<lparr>todo_id = 2, title = ''Walk dog'', completed = True,
            createdAt = ''2026-11-02T12:20:01.000Z'', updatedAt = ''2026-11-02T12:20:09.000Z''\<rparr>],
        sqlite_sequence = 2\<rparr>)"
proof -
  let ?db = "\<lparr>todos =
          [\<lparr>todo_id = 1, title = ''Buy milk'', completed = True,
            createdAt = ''2026-11-02T12:20:00.000Z'', updatedAt = ''2026-11-02T12:20:04.000Z''\<rparr>,
           \<lparr>todo_id = 2, title = ''Walk dog'', completed = False,
            createdAt = ''2026-11-02T12:20:01.000Z'', updatedAt = ''2026-11-02T12:20:01.000Z''\<rparr>],
        sqlite_sequence = 2\<rparr>"
  have h1: "idSchema_parse (JObject [(''id'', JNumber 2)]) = Inr 2"
    by (simp add: idSchema_parse_def property_def z_number_int_positive_def)
  have h2: "distinct (map todo_id (todos ?db))" by simp
  have h3: "2 \<in> todo_id ` set (todos ?db)" by simp
  show ?thesis
    using h1 h2 toggleTodo_frame [OF h1 h2 h3, of "''2026-11-02T12:20:09.000Z''"]
    by auto
qed

end
